theory Spec2Isabelle
  imports Main "HOL-Library.Word"
begin

unbundle bit_operations_syntax

section \<open>JavaScript values used by the sources\<close>

text \<open>
  The sources are \<^verbatim>\<open>src/components/Terminal.tsx\<close> (colour resolver, compositor,
  key routing, update scheduler) and \<^verbatim>\<open>pty-helper.mjs\<close> (the supervisor of the child
  process). JavaScript numbers that hold integers are \<open>int\<close>; strings are \<open>string\<close>;
  a value that may be \<^verbatim>\<open>undefined\<close> or \<^verbatim>\<open>null\<close> is an \<open>option\<close>.
\<close>

text \<open>\<^verbatim>\<open>xs[i]\<close>: reading an array out of range yields \<^verbatim>\<open>undefined\<close>, it does not throw.\<close>

definition at_index :: "'a list \<Rightarrow> int \<Rightarrow> 'a option" where
  "at_index xs i = (if 0 \<le> i \<and> i < int (length xs) then Some (xs ! nat i) else None)"

text \<open>\<^verbatim>\<open>ToInt32\<close>, applied by \<^verbatim>\<open>>>\<close> and \<^verbatim>\<open>&\<close> to their operands.\<close>

definition toInt32 :: "int \<Rightarrow> int" where
  "toInt32 x = signed_take_bit 31 x"

section \<open>Colour resolver (\<^verbatim>\<open>xtermColorToRGBA\<close>)\<close>

text \<open>\<^verbatim>\<open>RGBA.fromInts(r, g, b)\<close> of the rendering library: the value is kept as the
  three integer channels it was built from.\<close>

datatype RGBA = fromInts int int int

definition COLOR_PALETTE_16 :: "RGBA list" where
  "COLOR_PALETTE_16 =
    [fromInts 0 0 0, fromInts 187 0 0, fromInts 0 187 0, fromInts 187 187 0,
     fromInts 0 0 187, fromInts 187 0 187, fromInts 0 187 187, fromInts 187 187 187,
     fromInts 85 85 85, fromInts 255 85 85, fromInts 85 255 85, fromInts 255 255 85,
     fromInts 85 85 255, fromInts 255 85 255, fromInts 85 255 255, fromInts 255 255 255]"

definition CM_DEFAULT :: int where "CM_DEFAULT = 0"
definition CM_P16 :: int where "CM_P16 = 0x1000000"
definition CM_P256 :: int where "CM_P256 = 0x2000000"
definition CM_RGB :: int where "CM_RGB = 0x3000000"

definition xtermColorToRGBA :: "int \<Rightarrow> int \<Rightarrow> RGBA option" where
  "xtermColorToRGBA color mode =
    (if mode = CM_DEFAULT then None
     else if mode = CM_P16 then at_index COLOR_PALETTE_16 color
     else if mode = CM_P256 then
       (if color < 16 then at_index COLOR_PALETTE_16 color
        else if color < 232 then
          (let n = color - 16;
               r = (n div 36) * 51;
               g = ((n mod 36) div 6) * 51;
               b = (n mod 6) * 51
           in Some (fromInts r g b))
        else
          (let gray = (color - 232) * 10 + 8
           in Some (fromInts gray gray gray)))
     else if mode = CM_RGB then
       (let r = toInt32 (drop_bit 16 (toInt32 color)) AND 0xff;
            g = toInt32 (drop_bit 8 (toInt32 color)) AND 0xff;
            b = toInt32 color AND 0xff
        in Some (fromInts r g b))
     else None)"

text \<open>The packing the specification names: \<^verbatim>\<open>(r << 16) | (g << 8) | b\<close>.\<close>

definition packRGB :: "int \<Rightarrow> int \<Rightarrow> int \<Rightarrow> int" where
  "packRGB r g b = toInt32 (toInt32 (push_bit 16 (toInt32 r)) OR toInt32 (push_bit 8 (toInt32 g))) OR toInt32 b"


section \<open>Compositor (\<^verbatim>\<open>extractStyledText\<close>)\<close>

text \<open>
  A cell of the terminal emulator's buffer, with the getters the compositor calls. The
  attribute getters return numbers that the source turns into booleans with \<^verbatim>\<open>!!\<close>.
  A buffer is its list of lines, a line its list of cells: \<^verbatim>\<open>getLine(y)\<close> and
  \<^verbatim>\<open>getCell(x)\<close> yield \<^verbatim>\<open>undefined\<close> out of range. The source also logs the
  first coloured cell it meets to a debug file; the log plays no part in the chunks that
  are returned and is left out.
\<close>

record cell =
  getChars :: string
  getWidth :: int
  getFgColor :: int
  getBgColor :: int
  getFgColorMode :: int
  getBgColorMode :: int
  isBold :: int
  isDim :: int
  isItalic :: int
  isUnderline :: int
  isInverse :: int
  isStrikethrough :: int

type_synonym buffer_line = "cell list"
type_synonym xterm_buffer = "buffer_line list"

record attr_flags =
  bold :: bool
  dim :: bool
  italic :: bool
  underline :: bool
  inverse :: bool
  strikethrough :: bool

text \<open>
  The two functions of the rendering library that the compositor calls and whose code is
  not part of the repository are parameters of the model: \<^verbatim>\<open>RGBA.toString\<close> (used to
  compare colours) and \<^verbatim>\<open>createTextAttributes\<close> (the attribute bitmask).
\<close>

record opentui =
  toString :: "RGBA \<Rightarrow> string"
  createTextAttributes :: "attr_flags \<Rightarrow> int"

record TextChunk =
  ctext :: string
  fg :: "RGBA option"
  bg :: "RGBA option"
  attributes :: "int option"

text \<open>The variables of one pass over a row, with the chunk array they push to.\<close>

record row_vars =
  currentText :: string
  currentFg :: "RGBA option"
  currentBg :: "RGBA option"
  currentAttrs :: int
  chunks :: "TextChunk list"

text \<open>A pushed chunk; \<^verbatim>\<open>attributes: currentAttrs || undefined\<close>.\<close>

definition styledChunk :: "string \<Rightarrow> RGBA option \<Rightarrow> RGBA option \<Rightarrow> int \<Rightarrow> TextChunk" where
  "styledChunk t f b a =
    \<lparr>ctext = t, fg = f, bg = b, attributes = (if a \<noteq> 0 then Some a else None)\<rparr>"

text \<open>The chunk \<^verbatim>\<open>{ text: "\n" }\<close> pushed between rows.\<close>

definition newlineChunk :: TextChunk where
  "newlineChunk = \<lparr>ctext = [CHR 0x0A], fg = None, bg = None, attributes = None\<rparr>"

text \<open>White space as \<^verbatim>\<open>trim\<close> and \<^verbatim>\<open>trimEnd\<close> see it, for code units below 256:
  TAB, LF, VT, FF, CR, SPACE and NBSP.\<close>

definition isWhiteSpace :: "char \<Rightarrow> bool" where
  "isWhiteSpace c = (c \<in> set [CHR 0x09, CHR 0x0A, CHR 0x0B, CHR 0x0C, CHR 0x0D, CHR 0x20, CHR 0xA0])"

definition trimEnd :: "string \<Rightarrow> string" where
  "trimEnd s = rev (dropWhile isWhiteSpace (rev s))"

definition trim :: "string \<Rightarrow> string" where
  "trim s = dropWhile isWhiteSpace (trimEnd s)"

text \<open>The body of the loop over the columns, for column \<open>x\<close>.\<close>

definition cellStep :: "opentui \<Rightarrow> buffer_line \<Rightarrow> row_vars \<Rightarrow> nat \<Rightarrow> row_vars" where
  "cellStep lib line v x =
    (case at_index line (int x) of
       None \<Rightarrow> v
     | Some c \<Rightarrow>
        if getWidth c = 0 then v
        else
          (let char = (if getChars c \<noteq> [] then getChars c else '' '');
               fg' = xtermColorToRGBA (getFgColor c) (getFgColorMode c);
               bg' = xtermColorToRGBA (getBgColor c) (getBgColorMode c);
               attrs = createTextAttributes lib
                 \<lparr>bold = (isBold c \<noteq> 0), dim = (isDim c \<noteq> 0), italic = (isItalic c \<noteq> 0),
                  underline = (isUnderline c \<noteq> 0), inverse = (isInverse c \<noteq> 0),
                  strikethrough = (isStrikethrough c \<noteq> 0)\<rparr>;
               fgChanged = (map_option (toString lib) fg' \<noteq> map_option (toString lib) (currentFg v));
               bgChanged = (map_option (toString lib) bg' \<noteq> map_option (toString lib) (currentBg v));
               attrsChanged = (attrs \<noteq> currentAttrs v);
               v1 = (if (fgChanged \<or> bgChanged \<or> attrsChanged) \<and> currentText v \<noteq> []
                     then v\<lparr>chunks := chunks v @
                              [styledChunk (currentText v) (currentFg v) (currentBg v) (currentAttrs v)],
                            currentText := []\<rparr>
                     else v)
           in v1\<lparr>currentText := currentText v1 @ char, currentFg := fg', currentBg := bg',
                 currentAttrs := attrs\<rparr>))"

text \<open>The body of the loop over the rows, for row \<open>y\<close>, from the chunks pushed so far.\<close>

definition rowStep ::
  "opentui \<Rightarrow> xterm_buffer \<Rightarrow> int \<Rightarrow> int \<Rightarrow> TextChunk list \<Rightarrow> nat \<Rightarrow> TextChunk list" where
  "rowStep lib buffer cols rows cs y =
    (case at_index buffer (int y) of
       None \<Rightarrow> cs
     | Some line \<Rightarrow>
        (let v = foldl (cellStep lib line)
                   \<lparr>currentText = [], currentFg = None, currentBg = None, currentAttrs = 0,
                    chunks = cs\<rparr> [0..<nat cols];
             cs1 = (if currentText v \<noteq> []
                    then chunks v @
                      [styledChunk (trimEnd (currentText v)) (currentFg v) (currentBg v) (currentAttrs v)]
                    else chunks v)
         in if int y < rows - 1 then cs1 @ [newlineChunk] else cs1))"

text \<open>The final loop that removes trailing empty lines.\<close>

function popTrailing :: "TextChunk list \<Rightarrow> TextChunk list" where
  "popTrailing cs =
    (if cs \<noteq> [] \<and> (ctext (last cs) = [CHR 0x0A] \<or> trim (ctext (last cs)) = [])
     then popTrailing (butlast cs) else cs)"
  by pat_completeness auto
termination
  by (relation "measure length") auto

declare popTrailing.simps [simp del]

definition extractStyledText :: "opentui \<Rightarrow> xterm_buffer \<Rightarrow> int \<Rightarrow> int \<Rightarrow> TextChunk list" where
  "extractStyledText lib buffer cols rows =
    popTrailing (foldl (rowStep lib buffer cols rows) [] [0..<nat rows])"

text \<open>The style of a run: foreground, background and attribute bitmask.\<close>

definition style :: "TextChunk \<Rightarrow> RGBA option \<times> RGBA option \<times> int option" where
  "style c = (fg c, bg c, attributes c)"

section \<open>Key routing and the process handle (\<^verbatim>\<open>sendKey\<close>)\<close>

record key_event =
  name :: string
  sequence :: "string option"
  ctrl :: "bool option"
  meta :: "bool option"

text \<open>Truthiness of an optional boolean and of an optional string.\<close>

definition truthy :: "bool option \<Rightarrow> bool" where
  "truthy b = (b = Some True)"

definition truthyString :: "string option \<Rightarrow> bool" where
  "truthyString s = (case s of None \<Rightarrow> False | Some t \<Rightarrow> t \<noteq> [])"

text \<open>The helper process as the component sees it: the chunks written to its standard
  input so far, or no input stream at all.\<close>

record child_process =
  stdin :: "string list option"

record terminal =
  processRef :: "child_process option"
  onExitCalls :: nat

definition sendKey :: "key_event \<Rightarrow> terminal \<Rightarrow> terminal" where
  "sendKey key s =
    (case processRef s of
       None \<Rightarrow> s
     | Some p \<Rightarrow>
        (case stdin p of
           None \<Rightarrow> s
         | Some w \<Rightarrow>
            (let write = (\<lambda>d. s\<lparr>processRef := Some (p\<lparr>stdin := Some (w @ [d])\<rparr>)\<rparr>)
             in if truthy (ctrl key) \<and> name key = ''c'' then write [CHR 0x03]
                else if truthy (ctrl key) \<and> name key = ''d'' then write [CHR 0x04]
                else if name key = ''return'' then write [CHR 0x0D]
                else if name key = ''backspace'' then write [CHR 0x7F]
                else if name key = ''up'' then write [CHR 0x1B, CHR ''['', CHR ''A'']
                else if name key = ''down'' then write [CHR 0x1B, CHR ''['', CHR ''B'']
                else if name key = ''left'' then write [CHR 0x1B, CHR ''['', CHR ''D'']
                else if name key = ''right'' then write [CHR 0x1B, CHR ''['', CHR ''C'']
                else if name key = ''escape'' then write [CHR 0x1B]
                else if truthyString (sequence key) \<and> \<not> truthy (ctrl key) \<and> \<not> truthy (meta key)
                  then write (case sequence key of Some sq \<Rightarrow> sq | None \<Rightarrow> [])
                else s)))"

text \<open>The handler of the helper's \<^verbatim>\<open>exit\<close> event: the handle is cleared and the
  owner's callback is called.\<close>

definition onProcExit :: "terminal \<Rightarrow> terminal" where
  "onProcExit s = s\<lparr>processRef := None, onExitCalls := Suc (onExitCalls s)\<rparr>"

text \<open>The bytes that have reached the child's input.\<close>

definition stdinBytes :: "terminal \<Rightarrow> string" where
  "stdinBytes s =
    (case processRef s of
       None \<Rightarrow> []
     | Some p \<Rightarrow> (case stdin p of None \<Rightarrow> [] | Some w \<Rightarrow> concat w))"

text \<open>The table of the specification, in its order: the bytes a key event stands for,
  the empty string when nothing is emitted.\<close>

definition toBytes :: "key_event \<Rightarrow> string" where
  "toBytes key =
    (if ctrl key = Some True \<and> name key = ''c'' then [CHR 0x03]
     else if ctrl key = Some True \<and> name key = ''d'' then [CHR 0x04]
     else if name key = ''return'' then [CHR 0x0D]
     else if name key = ''backspace'' then [CHR 0x7F]
     else if name key = ''up'' then [CHR 0x1B, CHR ''['', CHR ''A'']
     else if name key = ''down'' then [CHR 0x1B, CHR ''['', CHR ''B'']
     else if name key = ''right'' then [CHR 0x1B, CHR ''['', CHR ''C'']
     else if name key = ''left'' then [CHR 0x1B, CHR ''['', CHR ''D'']
     else if name key = ''escape'' then [CHR 0x1B]
     else (case sequence key of
             None \<Rightarrow> []
           | Some sq \<Rightarrow> if ctrl key = Some True \<or> meta key = Some True then [] else sq))"


section \<open>Update scheduler (\<^verbatim>\<open>scheduleUpdate\<close>)\<close>

text \<open>
  The component's timer state in virtual time. \<open>clock\<close> is the current time in
  milliseconds; \<open>timers\<close> is the runtime's table of active timers, each a handle with
  the time it is due; \<open>pendingUpdate\<close> is the source's variable of that name (a handle
  is always truthy); \<open>termState\<close> is the emulator's buffer state, of any type;
  \<open>renders\<close> records every call of \<^verbatim>\<open>updateDisplay\<close> with the time of the call and
  the buffer state it read. \<^verbatim>\<open>setTimeout\<close> and \<^verbatim>\<open>clearTimeout\<close> belong to the
  runtime and are modelled by their contract: a timer fires once, when the clock reaches
  its due time, unless it was cleared.
\<close>

record 'b display =
  clock :: nat
  nextHandle :: nat
  timers :: "(nat \<times> nat) list"
  pendingUpdate :: "nat option"
  termState :: 'b
  renders :: "(nat \<times> 'b) list"

definition setTimeout :: "nat \<Rightarrow> 'b display \<Rightarrow> nat \<times> 'b display" where
  "setTimeout delay s =
    (nextHandle s,
     s\<lparr>timers := timers s @ [(nextHandle s, clock s + delay)], nextHandle := Suc (nextHandle s)\<rparr>)"

definition clearTimeout :: "nat \<Rightarrow> 'b display \<Rightarrow> 'b display" where
  "clearTimeout h s = s\<lparr>timers := filter (\<lambda>x. fst x \<noteq> h) (timers s)\<rparr>"

definition updateDisplay :: "'b display \<Rightarrow> 'b display" where
  "updateDisplay s = s\<lparr>renders := renders s @ [(clock s, termState s)]\<rparr>"

text \<open>The function handed to \<^verbatim>\<open>setTimeout\<close>.\<close>

definition timerCallback :: "'b display \<Rightarrow> 'b display" where
  "timerCallback s = updateDisplay (s\<lparr>pendingUpdate := None\<rparr>)"

definition scheduleUpdate :: "'b display \<Rightarrow> 'b display" where
  "scheduleUpdate s =
    (let s1 = (case pendingUpdate s of None \<Rightarrow> s | Some h \<Rightarrow> clearTimeout h s);
         (h, s2) = setTimeout 16 s1
     in s2\<lparr>pendingUpdate := Some h\<rparr>)"

text \<open>\<^verbatim>\<open>term.write(data, scheduleUpdate)\<close>: the emulator takes the data in (by \<open>feed\<close>,
  the emulator's parser) and then calls the scheduler.\<close>

definition onStdoutData :: "(string \<Rightarrow> 'b \<Rightarrow> 'b) \<Rightarrow> string \<Rightarrow> 'b display \<Rightarrow> 'b display" where
  "onStdoutData feed data s = scheduleUpdate (s\<lparr>termState := feed data (termState s)\<rparr>)"

text \<open>The event loop: the timer to run next among those due by time \<open>t\<close> is the one
  due first (the one set first among equals).\<close>

fun earliest :: "nat \<times> nat \<Rightarrow> (nat \<times> nat) list \<Rightarrow> nat \<times> nat" where
  "earliest m [] = m"
| "earliest m (x # xs) = earliest (if snd x < snd m then x else m) xs"

definition nextDue :: "nat \<Rightarrow> (nat \<times> nat) list \<Rightarrow> (nat \<times> nat) option" where
  "nextDue t ts = (case filter (\<lambda>x. snd x \<le> t) ts of [] \<Rightarrow> None | x # xs \<Rightarrow> Some (earliest x xs))"

function runTimers :: "nat \<Rightarrow> 'b display \<Rightarrow> 'b display" where
  "runTimers t s =
    (case nextDue t (timers s) of
       None \<Rightarrow> s\<lparr>clock := max (clock s) t\<rparr>
     | Some (h, due) \<Rightarrow>
        runTimers t
          (timerCallback (s\<lparr>clock := max (clock s) due,
                            timers := filter (\<lambda>x. fst x \<noteq> h) (timers s)\<rparr>)))"
  by pat_completeness auto
termination
proof (relation "measure (\<lambda>(t, s). length (timers s))")
  show "wf (measure (\<lambda>(t, s :: 'b display). length (timers s)))"
    by simp
next
  fix t and s :: "'b display" and x2 h due
  assume nd: "nextDue t (timers s) = Some x2" and x2: "(h, due) = x2"
  have mem: "earliest m xs \<in> set (m # xs)" for m :: "nat \<times> nat" and xs
    by (induction xs arbitrary: m) auto
  from nd obtain y ys where f: "filter (\<lambda>x. snd x \<le> t) (timers s) = y # ys"
    and e: "x2 = earliest y ys"
    by (auto simp: nextDue_def split: list.splits)
  have "x2 \<in> set (filter (\<lambda>x. snd x \<le> t) (timers s))"
    using mem [of y ys] by (simp only: f e)
  then have "(h, due) \<in> set (timers s)"
    using x2 by simp
  then have "length (filter (\<lambda>x. fst x \<noteq> h) (timers s)) < length (timers s)"
    by (intro length_filter_less [where x = "(h, due)"]) auto
  then show "((t, timerCallback (s\<lparr>clock := max (clock s) due,
                 timers := filter (\<lambda>x. fst x \<noteq> h) (timers s)\<rparr>)), t, s)
             \<in> measure (\<lambda>(t, s). length (timers s))"
    by (simp add: timerCallback_def updateDisplay_def)
qed

declare runTimers.simps [simp del]

text \<open>Time passes by \<open>d\<close> milliseconds.\<close>

definition elapse :: "nat \<Rightarrow> 'b display \<Rightarrow> 'b display" where
  "elapse d s = runTimers (clock s + d) s"

datatype ui_event = Stdout string | Elapse nat

fun uiStep :: "(string \<Rightarrow> 'b \<Rightarrow> 'b) \<Rightarrow> 'b display \<Rightarrow> ui_event \<Rightarrow> 'b display" where
  "uiStep feed s (Stdout data) = onStdoutData feed data s"
| "uiStep feed s (Elapse d) = elapse d s"

definition uiRun :: "(string \<Rightarrow> 'b \<Rightarrow> 'b) \<Rightarrow> ui_event list \<Rightarrow> 'b display \<Rightarrow> 'b display" where
  "uiRun feed evs s = foldl (uiStep feed) s evs"

text \<open>A burst: a first call, then further calls, each after the given gap.\<close>

fun burst :: "string \<Rightarrow> (nat \<times> string) list \<Rightarrow> ui_event list" where
  "burst d0 [] = [Stdout d0]"
| "burst d0 ((gap, d) # rest) = Stdout d0 # Elapse gap # burst d rest"

text \<open>The timer table holds exactly the pending handle.\<close>

definition onePending :: "'b display \<Rightarrow> bool" where
  "onePending s =
    (map fst (timers s) = (case pendingUpdate s of None \<Rightarrow> [] | Some h \<Rightarrow> [h]))"

section \<open>Process supervisor (\<^verbatim>\<open>pty-helper.mjs\<close>)\<close>

text \<open>\<^verbatim>\<open>Array.prototype.indexOf\<close>: the first index of an element, \<open>-1\<close> when absent.\<close>

fun indexOfFrom :: "'a list \<Rightarrow> 'a \<Rightarrow> int \<Rightarrow> int" where
  "indexOfFrom [] a i = - 1"
| "indexOfFrom (x # xs) a i = (if x = a then i else indexOfFrom xs a (i + 1))"

definition indexOf :: "'a list \<Rightarrow> 'a \<Rightarrow> int" where
  "indexOf xs a = indexOfFrom xs a 0"

text \<open>\<^verbatim>\<open>String.prototype.includes\<close>: the argument occurs as a substring.\<close>

fun startsWith :: "string \<Rightarrow> string \<Rightarrow> bool" where
  "startsWith s [] = True"
| "startsWith [] (c # cs) = False"
| "startsWith (x # xs) (c # cs) = (x = c \<and> startsWith xs cs)"

fun str_includes :: "string \<Rightarrow> string \<Rightarrow> bool" where
  "str_includes [] sub = (sub = [])"
| "str_includes (x # xs) sub = (startsWith (x # xs) sub \<or> str_includes xs sub)"

definition resumeIndex :: "string list \<Rightarrow> int" where
  "resumeIndex cmdArgs = indexOf cmdArgs ''--resume''"

definition sessionIdIndex :: "string list \<Rightarrow> int" where
  "sessionIdIndex cmdArgs = indexOf cmdArgs ''--session-id''"

definition originalSessionId :: "string list \<Rightarrow> string option" where
  "originalSessionId cmdArgs =
    (if resumeIndex cmdArgs \<ge> 0 then at_index cmdArgs (resumeIndex cmdArgs + 1)
     else if sessionIdIndex cmdArgs \<ge> 0 then at_index cmdArgs (sessionIdIndex cmdArgs + 1)
     else None)"

text \<open>A child spawned in a pseudo-terminal: the call \<^verbatim>\<open>pty.spawn(command, args, options)\<close>.\<close>

record pty_process =
  pty_file :: string
  pty_args :: "string list"
  pty_cwd :: string
  pty_cols :: int
  pty_rows :: int

text \<open>The JSON object written to \<^verbatim>\<open>~/.multicode/session-update.json\<close>.\<close>

record session_update =
  oldSessionId :: "string option"
  newSessionId :: string
  update_cwd :: string
  timestamp :: int

text \<open>
  The module's state: its constants (\<open>cwd\<close>, \<open>command\<close>, \<open>cmdArgs\<close>, \<open>COLS\<close>,
  \<open>ROWS\<close>), its variables (\<open>ptyProcess\<close>, \<open>outputBuffer\<close>, \<open>startTime\<close>,
  \<open>hasRetried\<close>) and what it has done to the outside: the children spawned so far, the
  chunks written to its own standard output, the content of the session-update file, and
  the status it has exited with, if it has. Spawning a child and writing to the standard
  output are recorded as done; the two file-system calls of the exit handler, which the
  source guards with \<^verbatim>\<open>try\<close>, may fail.
\<close>

record helper =
  cwd :: string
  command :: string
  cmdArgs :: "string list"
  COLS :: int
  ROWS :: int
  ptyProcess :: "pty_process option"
  outputBuffer :: string
  startTime :: int
  hasRetried :: bool
  spawned :: "pty_process list"
  stdout :: "string list"
  sessionUpdateFile :: "session_update option"
  exitStatus :: "int option"

text \<open>What the exit handler reads from the outside when it runs: the three readings of
  \<^verbatim>\<open>Date.now()\<close> in the order the handler takes them, the result of
  \<^verbatim>\<open>randomUUID()\<close>, and whether \<^verbatim>\<open>mkdirSync\<close> and \<^verbatim>\<open>writeFileSync\<close> succeed
  (either may throw; the source catches and ignores it).\<close>

record exit_env =
  nowAtExit :: int
  nowAtRestart :: int
  nowAtWrite :: int
  randomUUID :: string
  mkdirSync_ok :: bool
  writeFileSync_ok :: bool

text \<open>The spawning part of \<^verbatim>\<open>startPty\<close>; its two handlers are \<open>onData\<close> and
  \<open>onExit\<close> below.\<close>

definition startPty :: "string list \<Rightarrow> string option \<Rightarrow> helper \<Rightarrow> helper" where
  "startPty cmdArgsToUse currentSessionId s =
    (let p = \<lparr>pty_file = command s, pty_args = cmdArgsToUse, pty_cwd = cwd s,
              pty_cols = COLS s, pty_rows = ROWS s\<rparr>
     in s\<lparr>ptyProcess := Some p, spawned := spawned s @ [p]\<rparr>)"

definition onData :: "int \<Rightarrow> string \<Rightarrow> helper \<Rightarrow> helper" where
  "onData now data s =
    (let elapsed = now - startTime s
     in if elapsed < 2000 then
          (let s1 = s\<lparr>outputBuffer := outputBuffer s @ data\<rparr>
           in if \<not> hasRetried s1 \<and> truthyString (originalSessionId (cmdArgs s1))
                 \<and> resumeIndex (cmdArgs s1) \<ge> 0
              then s1
              else s1\<lparr>stdout := stdout s1 @ [data]\<rparr>)
        else s\<lparr>stdout := stdout s @ [data]\<rparr>)"

definition onExit :: "exit_env \<Rightarrow> int \<Rightarrow> helper \<Rightarrow> helper" where
  "onExit env exitCode s =
    (let elapsed = nowAtExit env - startTime s
     in if exitCode \<noteq> 0 \<and> elapsed < 2000 \<and> \<not> hasRetried s
           \<and> truthyString (originalSessionId (cmdArgs s))
           \<and> (str_includes (outputBuffer s) ''No conversation found''
               \<or> (str_includes (outputBuffer s) ''Session ID'' \<and> str_includes (outputBuffer s) ''not found''))
        then
          (let s1 = s\<lparr>hasRetried := True, startTime := nowAtRestart env, outputBuffer := []\<rparr>;
               newId = randomUUID env;
               s2 = (if mkdirSync_ok env \<and> writeFileSync_ok env
                     then s1\<lparr>sessionUpdateFile :=
                            Some \<lparr>oldSessionId = originalSessionId (cmdArgs s1),
                                  newSessionId = newId, update_cwd = cwd s1,
                                  timestamp = nowAtWrite env\<rparr>\<rparr>
                     else s1);
               newArgs = [''--session-id'', newId]
           in startPty newArgs (Some newId) s2)
        else s\<lparr>exitStatus := Some exitCode\<rparr>)"

text \<open>The module's top level: the arguments after the script name, the process's own
  working directory, the terminal size and the first reading of the clock.\<close>

definition helperMain :: "string list \<Rightarrow> string \<Rightarrow> int \<Rightarrow> int \<Rightarrow> int \<Rightarrow> helper" where
  "helperMain args processCwd cols rows now =
    (let cwd0 = (case at_index args 0 of Some c \<Rightarrow> (if c \<noteq> [] then c else processCwd) | None \<Rightarrow> processCwd);
         command0 = (case at_index args 1 of Some c \<Rightarrow> (if c \<noteq> [] then c else ''zsh'') | None \<Rightarrow> ''zsh'');
         cmdArgs0 = drop 2 args
     in startPty cmdArgs0 (originalSessionId cmdArgs0)
          \<lparr>cwd = cwd0, command = command0, cmdArgs = cmdArgs0, COLS = cols, ROWS = rows,
           ptyProcess = None, outputBuffer = [], startTime = now, hasRetried = False,
           spawned = [], stdout = [], sessionUpdateFile = None, exitStatus = None\<rparr>)"

text \<open>What the child does, as the supervisor sees it: a chunk of output, or its exit.
  Once the supervisor has called \<^verbatim>\<open>process.exit\<close> nothing more happens.\<close>

datatype pty_event = Data int string | Exit exit_env int

fun helperStep :: "helper \<Rightarrow> pty_event \<Rightarrow> helper" where
  "helperStep s (Data now data) = (if exitStatus s = None then onData now data s else s)"
| "helperStep s (Exit env exitCode) = (if exitStatus s = None then onExit env exitCode s else s)"

definition helperRun :: "pty_event list \<Rightarrow> helper \<Rightarrow> helper" where
  "helperRun evs s = foldl helperStep s evs"

text \<open>A session started in resume mode: \<^verbatim>\<open>--resume\<close> is among the arguments and is
  followed by a non-empty session id.\<close>

definition resumeMode :: "helper \<Rightarrow> bool" where
  "resumeMode s = (resumeIndex (cmdArgs s) \<ge> 0 \<and> truthyString (originalSessionId (cmdArgs s)))"

text \<open>The failure signature in the output buffer.\<close>

definition sessionNotFound :: "string \<Rightarrow> bool" where
  "sessionNotFound buf =
    (str_includes buf ''No conversation found''
     \<or> (str_includes buf ''Session ID'' \<and> str_includes buf ''not found''))"

text \<open>The supervisor feeding on a list of timed output chunks.\<close>

definition dataEvents :: "(int \<times> string) list \<Rightarrow> pty_event list" where
  "dataEvents tds = map (\<lambda>td. Data (fst td) (snd td)) tds"

text \<open>The number of children spawned so far follows \<open>hasRetried\<close>.\<close>

definition retryCount :: "helper \<Rightarrow> bool" where
  "retryCount s = (length (spawned s) = (if hasRetried s then 2 else 1))"

text \<open>Example runs: a session resumed with an extra flag, started at time 1000; the same
  after the child has printed the failure text at time 1100; an exit handled at time 1500
  with a working file system, and one where \<^verbatim>\<open>mkdirSync\<close> throws.\<close>

definition exampleResume :: helper where
  "exampleResume =
    helperMain [''/tmp'', ''claude'', ''--resume'', ''abc'', ''--verbose''] ''/home'' 90 20 1000"

definition exampleFailed :: helper where
  "exampleFailed = onData 1100 ''No conversation found'' exampleResume"

definition exampleEnv :: exit_env where
  "exampleEnv = \<lparr>nowAtExit = 1500, nowAtRestart = 1501, nowAtWrite = 1502,
     randomUUID = ''u-1'', mkdirSync_ok = True, writeFileSync_ok = True\<rparr>"

definition failingEnv :: exit_env where
  "failingEnv = \<lparr>nowAtExit = 1500, nowAtRestart = 1501, nowAtWrite = 1502,
     randomUUID = ''u-1'', mkdirSync_ok = False, writeFileSync_ok = True\<rparr>"

section \<open>Notions used in the proofs about the compositor\<close>

text \<open>\<^verbatim>\<open>currentAttrs || undefined\<close> as a function of the bitmask.\<close>

definition attrOpt :: "int \<Rightarrow> int option" where
  "attrOpt a = (if a \<noteq> 0 then Some a else None)"

text \<open>The style as the compositor compares it: the colours through \<^verbatim>\<open>toString\<close>. The
  key of a pushed chunk, and the key of the run in progress.\<close>

definition chunkKey :: "opentui \<Rightarrow> TextChunk \<Rightarrow> string option \<times> string option \<times> int option" where
  "chunkKey lib c =
    (map_option (toString lib) (fg c), map_option (toString lib) (bg c), attributes c)"

definition currentKey :: "opentui \<Rightarrow> row_vars \<Rightarrow> string option \<times> string option \<times> int option" where
  "currentKey lib v =
    (map_option (toString lib) (currentFg v), map_option (toString lib) (currentBg v),
     attrOpt (currentAttrs v))"

definition keysDiffer :: "opentui \<Rightarrow> TextChunk \<Rightarrow> TextChunk \<Rightarrow> bool" where
  "keysDiffer lib a b = (chunkKey lib a \<noteq> chunkKey lib b)"

text \<open>The invariant of the loop over the columns of a row that started from the chunks
  \<open>cs\<close>: the chunks pushed in this row differ pairwise in their keys, none is pushed
  before the first visible cell, and the last one differs from the run in progress.\<close>

definition rowInv :: "opentui \<Rightarrow> TextChunk list \<Rightarrow> row_vars \<Rightarrow> bool" where
  "rowInv lib cs v =
    (\<exists>rs. chunks v = cs @ rs \<and> successively (keysDiffer lib) rs
       \<and> (currentText v = [] \<longrightarrow> rs = [])
       \<and> (rs \<noteq> [] \<longrightarrow> chunkKey lib (last rs) \<noteq> currentKey lib v))"

text \<open>Two neighbours differ in style unless one of them is the newline chunk; the
  invariant of the loop over the rows.\<close>

definition styleOrNewline :: "TextChunk \<Rightarrow> TextChunk \<Rightarrow> bool" where
  "styleOrNewline a b = (style a \<noteq> style b \<or> a = newlineChunk \<or> b = newlineChunk)"

definition rowsInv :: "TextChunk list \<Rightarrow> bool" where
  "rowsInv cs = (successively styleOrNewline cs \<and> (cs = [] \<or> last cs = newlineChunk))"

text \<open>Example inputs of the compositor: an instance of the library's two functions (the
  colour printed as its three channels, the attributes as bit flags), a cell with default
  colours, a cell in palette red, and an unstyled chunk.\<close>

definition exampleLib :: opentui where
  "exampleLib =
    \<lparr>toString = (\<lambda>c. case c of fromInts r g b \<Rightarrow> [char_of r, char_of g, char_of b]),
     createTextAttributes = (\<lambda>f. (if bold f then 1 else 0) + (if dim f then 2 else 0)
        + (if italic f then 4 else 0) + (if underline f then 8 else 0)
        + (if inverse f then 32 else 0) + (if strikethrough f then 128 else 0))\<rparr>"

definition plainCell :: "string \<Rightarrow> cell" where
  "plainCell t = \<lparr>getChars = t, getWidth = 1, getFgColor = 0, getBgColor = 0,
     getFgColorMode = CM_DEFAULT, getBgColorMode = CM_DEFAULT, isBold = 0, isDim = 0,
     isItalic = 0, isUnderline = 0, isInverse = 0, isStrikethrough = 0\<rparr>"

definition redCell :: "string \<Rightarrow> cell" where
  "redCell t = (plainCell t)\<lparr>getFgColor := 1, getFgColorMode := CM_P16\<rparr>"

definition plainChunk :: "string \<Rightarrow> TextChunk" where
  "plainChunk t = \<lparr>ctext = t, fg = None, bg = None, attributes = None\<rparr>"

section \<open>Notions used in the proofs about the scheduler and the key routing\<close>

text \<open>One timer is active, due 16 ms from now, and it is the pending one.\<close>

definition armed :: "'b display \<Rightarrow> bool" where
  "armed s = (\<exists>h. timers s = [(h, clock s + 16)] \<and> pendingUpdate s = Some h)"

text \<open>Examples: the component right after mounting, with the emulator's state standing
  for the chunks it was fed; nine further calls within 5 ms of a first one; a component
  with a live helper process.\<close>

definition mounted :: "string list display" where
  "mounted = \<lparr>clock = 0, nextHandle = 0, timers = [], pendingUpdate = None, termState = [],
     renders = []\<rparr>"

definition appendChunk :: "string \<Rightarrow> string list \<Rightarrow> string list" where
  "appendChunk d b = b @ [d]"

definition nineMore :: "(nat \<times> string) list" where
  "nineMore = [(1, ''c1''), (0, ''c2''), (1, ''c3''), (0, ''c4''), (1, ''c5''), (0, ''c6''),
     (1, ''c7''), (0, ''c8''), (1, ''c9'')]"

definition liveTerminal :: terminal where
  "liveTerminal = \<lparr>processRef = Some \<lparr>stdin = Some [''ls'']\<rparr>, onExitCalls = 0\<rparr>"


section \<open>Properties of the colour resolver\<close>

lemma toInt32_id: "0 \<le> x \<Longrightarrow> x < 2 ^ 31 \<Longrightarrow> toInt32 x = x"
  unfolding toInt32_def by (rule signed_take_bit_int_eq_self) auto

lemma byte_and_ff: "0 \<le> x \<Longrightarrow> x < 2 ^ 31 \<Longrightarrow> toInt32 x AND 0xff = x mod 256"
proof -
  assume "0 \<le> x" "x < 2 ^ 31"
  then have "toInt32 x = x" by (rule toInt32_id)
  moreover have "(0xff :: int) = mask 8" by (simp add: mask_eq_exp_minus_1)
  ultimately show ?thesis by (simp only: flip: take_bit_eq_mask) (simp add: take_bit_eq_mod)
qed

text \<open>Within the channel range the 32-bit conversions of the packing do nothing, and the
  packed value fits in 24 bits.\<close>

lemma packRGB_eq:
  assumes "0 \<le> r" "r \<le> 255" "0 \<le> g" "g \<le> 255" "0 \<le> b" "b \<le> 255"
  shows "packRGB r g b = push_bit 16 r OR push_bit 8 g OR b"
    and "0 \<le> packRGB r g b" and "packRGB r g b < 2 ^ 24"
proof -
  have r: "toInt32 r = r" and g: "toInt32 g = g" and b: "toInt32 b = b"
    using assms by (simp_all add: toInt32_id)
  have pr: "push_bit 16 r < 2 ^ 24" "0 \<le> push_bit 16 r"
    using assms by (simp_all add: push_bit_eq_mult)
  have pg: "push_bit 8 g < 2 ^ 24" "0 \<le> push_bit 8 g"
    using assms by (simp_all add: push_bit_eq_mult)
  have o1: "push_bit 16 r OR push_bit 8 g < 2 ^ 24"
    using pr pg by (intro OR_upper) auto
  have o2: "(push_bit 16 r OR push_bit 8 g) OR b < 2 ^ 24"
    using o1 pr pg assms by (intro OR_upper) auto
  have "toInt32 (push_bit 16 r) = push_bit 16 r" "toInt32 (push_bit 8 g) = push_bit 8 g"
    using pr pg by (auto intro!: toInt32_id)
  moreover have "toInt32 (push_bit 16 r OR push_bit 8 g) = push_bit 16 r OR push_bit 8 g"
    using o1 pr pg by (intro toInt32_id) auto
  ultimately show e: "packRGB r g b = push_bit 16 r OR push_bit 8 g OR b"
    by (simp add: packRGB_def r g b or.assoc)
  show "0 \<le> packRGB r g b" using assms by (simp add: e)
  show "packRGB r g b < 2 ^ 24" using o2 by (simp add: e or.assoc)
qed

text \<open>
  Claim C9. For every RGB triple with each channel in 0..255, resolving the packed integer
  \<^verbatim>\<open>(r << 16) | (g << 8) | b\<close> under the true-colour mode returns exactly the triple:
  packing then resolving is the identity on 24-bit RGB values.
\<close>

theorem xtermColorToRGBA_truecolor_roundtrip:
  assumes "0 \<le> r" "r \<le> 255" "0 \<le> g" "g \<le> 255" "0 \<le> b" "b \<le> 255"
  shows "xtermColorToRGBA (packRGB r g b) CM_RGB = Some (fromInts r g b)"
proof -
  let ?x = "packRGB r g b"
  note p = packRGB_eq [OF assms]
  have x: "toInt32 ?x = ?x" using p(2,3) by (intro toInt32_id) auto
  have small: "drop_bit 8 g = 0" "drop_bit 8 b = 0" "drop_bit 16 b = 0"
    using assms by (simp_all add: drop_bit_eq_div)
  have d16: "drop_bit 16 ?x = r"
    by (simp add: p(1) drop_bit_push_bit small)
  have d8: "drop_bit 8 ?x = push_bit 8 r OR g"
    by (simp add: p(1) drop_bit_push_bit small)
  have d8b: "0 \<le> drop_bit 8 ?x" "drop_bit 8 ?x < 2 ^ 31"
    using p(2,3) by (simp_all add: drop_bit_eq_div)
  have tb: "take_bit 8 g = g" "take_bit 8 b = b"
    using assms by (simp_all add: take_bit_int_eq_self)
  have m8: "(push_bit 8 r OR g) mod 256 = g"
    by (simp add: take_bit_push_bit tb flip: take_bit_eq_mod [where n=8, simplified])
  have m0: "?x mod 256 = b"
    by (simp add: p(1) take_bit_push_bit tb flip: take_bit_eq_mod [where n=8, simplified])
  have R: "toInt32 (drop_bit 16 (toInt32 ?x)) AND 0xff = r"
    using assms by (simp add: x d16 byte_and_ff)
  have G: "toInt32 (drop_bit 8 (toInt32 ?x)) AND 0xff = g"
    using d8b by (simp add: x byte_and_ff) (simp add: d8 m8)
  have B: "toInt32 ?x AND 0xff = b"
    using p(2,3) by (simp add: byte_and_ff m0)
  show ?thesis
    by (simp add: xtermColorToRGBA_def CM_RGB_def CM_P256_def CM_P16_def CM_DEFAULT_def R G B)
qed

theorem xtermColorToRGBA_truecolor_roundtrip_witness:
  "(0::int) \<le> 18 \<and> (18::int) \<le> 255 \<and> (0::int) \<le> 52 \<and> (52::int) \<le> 255
    \<and> (0::int) \<le> 255 \<and> (255::int) \<le> 255
    \<and> xtermColorToRGBA (packRGB 18 52 255) CM_RGB = Some (fromInts 18 52 255)"
  using xtermColorToRGBA_truecolor_roundtrip [of 18 52 255] by simp

text \<open>
  Claim C10. For every colour index outside the defined palette range (an index not in
  0..15 under the 16-colour mode, or a negative index under the 256-colour mode) the
  resolver returns no colour. The resolver is a total function of its two integers: no
  branch of the source throws, and reading the palette out of range yields
  \<^verbatim>\<open>undefined\<close>.
\<close>

theorem xtermColorToRGBA_outside_palette:
  assumes "(mode = CM_P16 \<and> (color < 0 \<or> 15 < color)) \<or> (mode = CM_P256 \<and> color < 0)"
  shows "xtermColorToRGBA color mode = None"
  using assms
  by (auto simp: xtermColorToRGBA_def at_index_def COLOR_PALETTE_16_def
      CM_P256_def CM_P16_def CM_DEFAULT_def)

theorem xtermColorToRGBA_outside_palette_witness:
  "((CM_P16 = CM_P16 \<and> ((16::int) < 0 \<or> (15::int) < 16)) \<or> (CM_P16 = CM_P256 \<and> (16::int) < 0))
    \<and> xtermColorToRGBA 16 CM_P16 = None"
  using xtermColorToRGBA_outside_palette [of CM_P16 16] by simp

section \<open>Properties of the process supervisor\<close>

subsection \<open>The model's helpers mean what their names say\<close>

lemma startsWith_iff: "startsWith s sub \<longleftrightarrow> (\<exists>q. s = sub @ q)"
  by (induction s sub rule: startsWith.induct) auto

lemma str_includes_iff: "str_includes s sub \<longleftrightarrow> (\<exists>p q. s = p @ sub @ q)"
proof (induction s)
  case Nil
  then show ?case by auto
next
  case (Cons x xs)
  have "(\<exists>p q. x # xs = p @ sub @ q) \<longleftrightarrow>
      (\<exists>q. x # xs = sub @ q) \<or> (\<exists>p q. xs = p @ sub @ q)"
    by (auto simp: Cons_eq_append_conv)
  then show ?case using Cons by (simp add: startsWith_iff)
qed

subsection \<open>The two outcomes of the exit handler\<close>

lemma onExit_retry:
  assumes "exitCode \<noteq> 0" "nowAtExit env - startTime s < 2000" "\<not> hasRetried s"
    "truthyString (originalSessionId (cmdArgs s))" "sessionNotFound (outputBuffer s)"
  shows "onExit env exitCode s =
    s\<lparr>hasRetried := True, startTime := nowAtRestart env, outputBuffer := [],
      sessionUpdateFile :=
        (if mkdirSync_ok env \<and> writeFileSync_ok env
         then Some \<lparr>oldSessionId = originalSessionId (cmdArgs s), newSessionId = randomUUID env,
                    update_cwd = cwd s, timestamp = nowAtWrite env\<rparr>
         else sessionUpdateFile s),
      ptyProcess := Some \<lparr>pty_file = command s, pty_args = [''--session-id'', randomUUID env],
                          pty_cwd = cwd s, pty_cols = COLS s, pty_rows = ROWS s\<rparr>,
      spawned := spawned s @ [\<lparr>pty_file = command s, pty_args = [''--session-id'', randomUUID env],
                          pty_cwd = cwd s, pty_cols = COLS s, pty_rows = ROWS s\<rparr>]\<rparr>"
  using assms by (simp add: onExit_def sessionNotFound_def startPty_def Let_def)

lemma onExit_forward:
  assumes "\<not> (exitCode \<noteq> 0 \<and> nowAtExit env - startTime s < 2000 \<and> \<not> hasRetried s
    \<and> truthyString (originalSessionId (cmdArgs s)) \<and> sessionNotFound (outputBuffer s))"
  shows "onExit env exitCode s = s\<lparr>exitStatus := Some exitCode\<rparr>"
  using assms by (auto simp add: onExit_def sessionNotFound_def Let_def)

lemma onData_keeps:
  "hasRetried (onData now d s) = hasRetried s"
  "spawned (onData now d s) = spawned s"
  "sessionUpdateFile (onData now d s) = sessionUpdateFile s"
  "cmdArgs (onData now d s) = cmdArgs s"
  "startTime (onData now d s) = startTime s"
  "exitStatus (onData now d s) = exitStatus s"
  by (simp_all add: onData_def Let_def)

lemma onData_resume:
  assumes "resumeMode s" "\<not> hasRetried s"
  shows "onData now d s =
    (if now - startTime s < 2000 then s\<lparr>outputBuffer := outputBuffer s @ d\<rparr>
     else s\<lparr>stdout := stdout s @ [d]\<rparr>)"
  using assms by (simp add: onData_def resumeMode_def Let_def)

subsection \<open>The example runs\<close>

lemma exampleResume_fields:
  "cmdArgs exampleResume = [''--resume'', ''abc'', ''--verbose'']"
  "startTime exampleResume = 1000" "hasRetried exampleResume = False"
  "exitStatus exampleResume = None" "stdout exampleResume = []"
  "outputBuffer exampleResume = []"
  by (simp_all add: exampleResume_def helperMain_def startPty_def Let_def at_index_def)

lemma exampleResume_mode: "resumeMode exampleResume"
  by (simp add: resumeMode_def exampleResume_fields resumeIndex_def indexOf_def
      originalSessionId_def truthyString_def at_index_def)

lemma exampleFailed_fields:
  "cmdArgs exampleFailed = [''--resume'', ''abc'', ''--verbose'']"
  "startTime exampleFailed = 1000" "hasRetried exampleFailed = False"
  "outputBuffer exampleFailed = ''No conversation found''"
  "sessionUpdateFile exampleFailed = None" "exitStatus exampleFailed = None"
  "length (spawned exampleFailed) = 1" "cwd exampleFailed = ''/tmp''"
  "command exampleFailed = ''claude''"
  by (simp_all add: exampleFailed_def onData_def exampleResume_def helperMain_def
      startPty_def Let_def at_index_def)

lemma exampleFailed_resume:
  "0 \<le> resumeIndex (cmdArgs exampleFailed)"
  "at_index (cmdArgs exampleFailed) (resumeIndex (cmdArgs exampleFailed) + 1) = Some ''abc''"
  "truthyString (originalSessionId (cmdArgs exampleFailed))"
  "sessionNotFound (outputBuffer exampleFailed)"
  by (simp_all add: exampleFailed_fields resumeIndex_def indexOf_def at_index_def
      originalSessionId_def truthyString_def sessionNotFound_def)

lemma exampleFailed_retried:
  "onExit exampleEnv 1 exampleFailed =
    startPty [''--session-id'', ''u-1''] (Some ''u-1'')
      (exampleFailed\<lparr>hasRetried := True, startTime := 1501, outputBuffer := [],
         sessionUpdateFile := Some \<lparr>oldSessionId = Some ''abc'', newSessionId = ''u-1'',
           update_cwd = ''/tmp'', timestamp = 1502\<rparr>\<rparr>)"
  by (simp add: onExit_def exampleFailed_fields exampleEnv_def Let_def truthyString_def
      originalSessionId_def resumeIndex_def indexOf_def at_index_def)

subsection \<open>Claim C1\<close>

text \<open>
  Claim C1, as stated, says that on a retry the supervisor writes the marker record to the
  well-known file. The source wraps \<^verbatim>\<open>mkdirSync\<close> and \<^verbatim>\<open>writeFileSync\<close> in a
  \<^verbatim>\<open>try\<close> whose \<^verbatim>\<open>catch\<close> ignores the error: when the directory cannot be created
  the retry conditions hold, the child is restarted with the fresh id, and no record is
  written.
\<close>

theorem onExit_marker_not_written:
  "resumeIndex (cmdArgs exampleFailed) = 0
   \<and> at_index (cmdArgs exampleFailed) 1 = Some ''abc''
   \<and> nowAtExit failingEnv - startTime exampleFailed < 2000
   \<and> sessionNotFound (outputBuffer exampleFailed)
   \<and> \<not> hasRetried exampleFailed
   \<and> map pty_args (spawned (onExit failingEnv 1 exampleFailed)) =
       [[''--resume'', ''abc'', ''--verbose''], [''--session-id'', ''u-1'']]
   \<and> sessionUpdateFile (onExit failingEnv 1 exampleFailed) = None"
  apply (simp add: exampleFailed_fields resumeIndex_def indexOf_def at_index_def failingEnv_def
      sessionNotFound_def)
  apply (simp add: onExit_def exampleFailed_fields failingEnv_def Let_def startPty_def
      truthyString_def originalSessionId_def resumeIndex_def indexOf_def at_index_def)
  apply (simp add: exampleFailed_def onData_def exampleResume_def helperMain_def startPty_def
      Let_def at_index_def)
  done

text \<open>
  Claim C1, amended. For every session started with \<^verbatim>\<open>--resume\<close> followed by a
  non-empty session id: if the child exits with a non-zero status less than 2000 ms after
  the start time, the output buffer holds the failure signature and no retry has occurred,
  then the supervisor marks the retry, takes the fresh identifier, writes the marker record
  (old id, new id, working directory, timestamp) to the session-update file when creating
  the directory and writing the file succeed and leaves the file as it was otherwise,
  restarts the child with exactly \<^verbatim>\<open>--session-id\<close> and the fresh id, and resets the start
  time and the buffer; it does not exit. In every other case the only effect is that the
  supervisor exits with the child's status: no restart, no write.
\<close>

theorem onExit_retry_or_forward:
  assumes "0 \<le> resumeIndex (cmdArgs s)"
    and "at_index (cmdArgs s) (resumeIndex (cmdArgs s) + 1) = Some sid"
    and "sid \<noteq> []"
  shows "onExit env exitCode s =
    (if exitCode \<noteq> 0 \<and> nowAtExit env - startTime s < 2000
        \<and> sessionNotFound (outputBuffer s) \<and> \<not> hasRetried s
     then s\<lparr>hasRetried := True, startTime := nowAtRestart env, outputBuffer := [],
            sessionUpdateFile :=
              (if mkdirSync_ok env \<and> writeFileSync_ok env
               then Some \<lparr>oldSessionId = Some sid, newSessionId = randomUUID env,
                          update_cwd = cwd s, timestamp = nowAtWrite env\<rparr>
               else sessionUpdateFile s),
            ptyProcess := Some \<lparr>pty_file = command s,
                          pty_args = [''--session-id'', randomUUID env],
                          pty_cwd = cwd s, pty_cols = COLS s, pty_rows = ROWS s\<rparr>,
            spawned := spawned s @ [\<lparr>pty_file = command s,
                          pty_args = [''--session-id'', randomUUID env],
                          pty_cwd = cwd s, pty_cols = COLS s, pty_rows = ROWS s\<rparr>]\<rparr>
     else s\<lparr>exitStatus := Some exitCode\<rparr>)"
proof -
  have o: "originalSessionId (cmdArgs s) = Some sid"
    using assms by (simp add: originalSessionId_def)
  then have t: "truthyString (originalSessionId (cmdArgs s))"
    using assms by (simp add: truthyString_def)
  show ?thesis
  proof (cases "exitCode \<noteq> 0 \<and> nowAtExit env - startTime s < 2000
        \<and> sessionNotFound (outputBuffer s) \<and> \<not> hasRetried s")
    case True
    then show ?thesis using onExit_retry [of exitCode env s] t by (simp add: o)
  next
    case False
    then show ?thesis using onExit_forward [of exitCode env s] by auto
  qed
qed

theorem onExit_retry_or_forward_witness:
  "0 \<le> resumeIndex (cmdArgs exampleFailed)
   \<and> at_index (cmdArgs exampleFailed) (resumeIndex (cmdArgs exampleFailed) + 1) = Some ''abc''
   \<and> ''abc'' \<noteq> []
   \<and> sessionUpdateFile (onExit exampleEnv 1 exampleFailed) =
       Some \<lparr>oldSessionId = Some ''abc'', newSessionId = ''u-1'', update_cwd = ''/tmp'',
             timestamp = 1502\<rparr>
   \<and> map_option pty_args (ptyProcess (onExit exampleEnv 1 exampleFailed)) =
       Some [''--session-id'', ''u-1'']
   \<and> exitStatus (onExit exampleEnv 1 exampleFailed) = None
   \<and> exitStatus (onExit exampleEnv 0 exampleFailed) = Some 0"
proof -
  note a = exampleFailed_resume(1) and b = exampleFailed_resume(2)
  have c: "''abc'' \<noteq> []" by simp
  show ?thesis
    using onExit_retry_or_forward [OF a b c, of exampleEnv 1]
      onExit_retry_or_forward [OF a b c, of exampleEnv 0] a b exampleFailed_resume(4)
    by (simp add: exampleFailed_fields exampleEnv_def)
qed

subsection \<open>Claim C2\<close>

lemma onExit_retryCount: "retryCount s \<Longrightarrow> retryCount (onExit env c s)"
  by (cases "c \<noteq> 0 \<and> nowAtExit env - startTime s < 2000 \<and> \<not> hasRetried s
    \<and> truthyString (originalSessionId (cmdArgs s)) \<and> sessionNotFound (outputBuffer s)")
   (simp_all add: onExit_retry onExit_forward retryCount_def del: One_nat_def)

lemma helperStep_retryCount: "retryCount s \<Longrightarrow> retryCount (helperStep s e)"
  by (cases e) (simp_all add: onExit_retryCount, simp add: retryCount_def onData_keeps)

lemma helperRun_retryCount: "retryCount s \<Longrightarrow> retryCount (helperRun evs s)"
  unfolding helperRun_def by (induction evs arbitrary: s) (simp_all add: helperStep_retryCount)

lemma helperMain_retryCount: "retryCount (helperMain args pc cols rows now)"
  by (simp add: retryCount_def helperMain_def startPty_def Let_def)

text \<open>
  Claim C2. The retry fires at most once over the lifetime of a session: whatever the child
  does, the supervisor spawns at most two children (the first and one restart), and once a
  retry has occurred any later exit of the child, also one within 2 seconds, with non-zero
  status and the failure signature in the buffer, only makes the supervisor exit with the
  child's status: no further restart and no further write of the marker.
\<close>

theorem retry_at_most_once:
  "length (spawned (helperRun evs (helperMain args pc cols rows now))) \<le> 2
   \<and> (hasRetried s \<longrightarrow> onExit env exitCode s = s\<lparr>exitStatus := Some exitCode\<rparr>)"
proof
  have "retryCount (helperRun evs (helperMain args pc cols rows now))"
    by (intro helperRun_retryCount helperMain_retryCount)
  then show "length (spawned (helperRun evs (helperMain args pc cols rows now))) \<le> 2"
    by (simp add: retryCount_def split: if_splits)
  show "hasRetried s \<longrightarrow> onExit env exitCode s = s\<lparr>exitStatus := Some exitCode\<rparr>"
    by (simp add: onExit_forward)
qed

theorem retry_at_most_once_witness:
  "hasRetried (onData 1600 ''No conversation found'' (onExit exampleEnv 1 exampleFailed))
   \<and> sessionNotFound (outputBuffer
        (onData 1600 ''No conversation found'' (onExit exampleEnv 1 exampleFailed)))
   \<and> onExit exampleEnv 1 (onData 1600 ''No conversation found'' (onExit exampleEnv 1 exampleFailed))
     = (onData 1600 ''No conversation found'' (onExit exampleEnv 1 exampleFailed))
          \<lparr>exitStatus := Some 1\<rparr>
   \<and> length (spawned (helperRun [Data 1100 ''No conversation found'', Exit exampleEnv 1,
        Data 1600 ''No conversation found'', Exit exampleEnv 1]
        (helperMain [''/tmp'', ''claude'', ''--resume'', ''abc'', ''--verbose''] ''/home'' 90 20
           1000))) \<le> 2"
proof -
  have r: "hasRetried (onData 1600 ''No conversation found'' (onExit exampleEnv 1 exampleFailed))"
    by (simp add: onData_keeps exampleFailed_retried startPty_def Let_def)
  have b: "sessionNotFound (outputBuffer
        (onData 1600 ''No conversation found'' (onExit exampleEnv 1 exampleFailed)))"
    by (simp add: exampleFailed_retried startPty_def onData_def Let_def sessionNotFound_def)
  show ?thesis
    using retry_at_most_once [of "[Data 1100 ''No conversation found'', Exit exampleEnv 1,
        Data 1600 ''No conversation found'', Exit exampleEnv 1]"
        "[''/tmp'', ''claude'', ''--resume'', ''abc'', ''--verbose'']" "''/home''" 90 20 1000
        "onData 1600 ''No conversation found'' (onExit exampleEnv 1 exampleFailed)" exampleEnv 1]
      r b
    by simp
qed

subsection \<open>Claim C3\<close>

text \<open>
  Claim C3, as stated, says that the chunks buffered during the window are forwarded to the
  caller when the window ends, before later output. The source has no such step: a chunk
  that arrives in the window of a resumed session is appended to \<^verbatim>\<open>outputBuffer\<close> and
  the handler returns; the buffer is only ever searched for the failure signature. Here
  \<^verbatim>\<open>hello\<close> arrives 100 ms after the start and \<^verbatim>\<open>world\<close> 2100 ms after it: the
  caller receives \<^verbatim>\<open>world\<close> alone.
\<close>

theorem buffered_output_dropped:
  "resumeMode exampleResume \<and> \<not> hasRetried exampleResume
   \<and> \<not> sessionNotFound ''hello''
   \<and> stdout (helperRun [Data 1100 ''hello'', Data 3100 ''world''] exampleResume) = [''world'']"
  apply (simp add: helperRun_def exampleResume_mode exampleResume_fields sessionNotFound_def)
  apply (simp add: onData_def Let_def exampleResume_def helperMain_def startPty_def at_index_def
      resumeIndex_def indexOf_def originalSessionId_def truthyString_def)
  done

text \<open>
  Claim C3, amended. For every resume-mode session that has not retried, a chunk that
  arrives less than 2000 ms after the start time is appended to the detection buffer and is
  not forwarded to the caller, neither on arrival nor when the window ends; a chunk that
  arrives later is passed through at once. So the caller receives exactly the chunks that
  arrived at or after the 2-second mark, in the order of their arrival, and the buffer holds
  the others.
\<close>

theorem window_output_not_forwarded:
  assumes "resumeMode s" "\<not> hasRetried s" "exitStatus s = None"
  shows "stdout (helperRun (dataEvents tds) s) =
      stdout s @ map snd (filter (\<lambda>td. \<not> fst td - startTime s < 2000) tds)
    \<and> outputBuffer (helperRun (dataEvents tds) s) =
      outputBuffer s @ concat (map snd (filter (\<lambda>td. fst td - startTime s < 2000) tds))"
  using assms
proof (induction tds arbitrary: s)
  case Nil
  then show ?case by (simp add: helperRun_def dataEvents_def)
next
  case (Cons td tds)
  let ?s' = "onData (fst td) (snd td) s"
  have run: "helperRun (dataEvents (td # tds)) s = helperRun (dataEvents tds) ?s'"
    using Cons.prems by (simp add: helperRun_def dataEvents_def)
  have pre: "resumeMode ?s'" "\<not> hasRetried ?s'" "exitStatus ?s' = None"
    using Cons.prems by (simp_all add: resumeMode_def onData_keeps)
  have st: "startTime ?s' = startTime s" by (simp add: onData_keeps)
  show ?case
    using Cons.IH [OF pre] Cons.prems
    by (simp add: run st) (simp add: onData_resume)
qed

theorem window_output_not_forwarded_witness:
  "resumeMode exampleResume \<and> \<not> hasRetried exampleResume \<and> exitStatus exampleResume = None
   \<and> stdout (helperRun (dataEvents [(1100, ''hello''), (3100, ''world''), (3200, ''!'')])
        exampleResume) = [''world'', ''!'']
   \<and> outputBuffer (helperRun (dataEvents [(1100, ''hello''), (3100, ''world''), (3200, ''!'')])
        exampleResume) = ''hello''"
proof -
  note a = exampleResume_mode
  have b: "\<not> hasRetried exampleResume" by (simp add: exampleResume_fields)
  note c = exampleResume_fields(4)
  show ?thesis
    using window_output_not_forwarded [OF a b c,
        of "[(1100, ''hello''), (3100, ''world''), (3200, ''!'')]"] a b c
    by (simp add: exampleResume_fields)
qed

subsection \<open>Claim C6\<close>

text \<open>
  Claim C6. Whenever the exit handler restarts the child, the new child's argument list is
  exactly the two-element list of \<^verbatim>\<open>--session-id\<close> and the fresh id: nothing of the
  original arguments, whatever they were, is passed on.
\<close>

theorem restart_args_exact:
  assumes "spawned (onExit env exitCode s) \<noteq> spawned s"
  shows "\<exists>p. spawned (onExit env exitCode s) = spawned s @ [p]
      \<and> ptyProcess (onExit env exitCode s) = Some p
      \<and> pty_args p = [''--session-id'', randomUUID env]"
proof (cases "exitCode \<noteq> 0 \<and> nowAtExit env - startTime s < 2000 \<and> \<not> hasRetried s
    \<and> truthyString (originalSessionId (cmdArgs s)) \<and> sessionNotFound (outputBuffer s)")
  case True
  then show ?thesis using onExit_retry [of exitCode env s] by simp
next
  case False
  then have "onExit env exitCode s = s\<lparr>exitStatus := Some exitCode\<rparr>"
    by (rule onExit_forward)
  with assms show ?thesis by simp
qed

theorem restart_args_exact_witness:
  "spawned (onExit exampleEnv 1 exampleFailed) \<noteq> spawned exampleFailed
   \<and> cmdArgs exampleFailed = [''--resume'', ''abc'', ''--verbose'']
   \<and> map_option pty_args (ptyProcess (onExit exampleEnv 1 exampleFailed)) =
       Some [''--session-id'', ''u-1'']"
proof -
  have n: "spawned (onExit exampleEnv 1 exampleFailed) \<noteq> spawned exampleFailed"
    by (simp add: exampleFailed_retried startPty_def Let_def)
  from restart_args_exact [OF n] show ?thesis
    using n by (auto simp: exampleFailed_fields exampleEnv_def)
qed

section \<open>Properties of the compositor\<close>

lemma attrOpt_inj: "attrOpt a = attrOpt b \<longleftrightarrow> a = b"
  by (auto simp: attrOpt_def)

lemma chunkKey_styledChunk:
  "chunkKey lib (styledChunk t f b a) = (map_option (toString lib) f, map_option (toString lib) b, attrOpt a)"
  by (simp add: chunkKey_def styledChunk_def attrOpt_def)

lemma successively_snoc:
  "successively P (xs @ [x]) \<longleftrightarrow> successively P xs \<and> (xs = [] \<or> P (last xs) x)"
  by (simp add: successively_append_iff)

lemma cellStep_rowInv:
  assumes "rowInv lib cs v"
  shows "rowInv lib cs (cellStep lib line v x)"
proof (cases "at_index line (int x)")
  case None
  then show ?thesis using assms by (simp add: cellStep_def)
next
  case (Some c)
  show ?thesis
  proof (cases "getWidth c = 0")
    case True
    then show ?thesis using assms Some by (simp add: cellStep_def)
  next
    case False
    from assms obtain rs where rs: "chunks v = cs @ rs" "successively (keysDiffer lib) rs"
      "currentText v = [] \<longrightarrow> rs = []" "rs \<noteq> [] \<longrightarrow> chunkKey lib (last rs) \<noteq> currentKey lib v"
      by (auto simp: rowInv_def)
    define fg' where "fg' = xtermColorToRGBA (getFgColor c) (getFgColorMode c)"
    define bg' where "bg' = xtermColorToRGBA (getBgColor c) (getBgColorMode c)"
    define attrs where "attrs = createTextAttributes lib
                 \<lparr>bold = (isBold c \<noteq> 0), dim = (isDim c \<noteq> 0), italic = (isItalic c \<noteq> 0),
                  underline = (isUnderline c \<noteq> 0), inverse = (isInverse c \<noteq> 0),
                  strikethrough = (isStrikethrough c \<noteq> 0)\<rparr>"
    define char where "char = (if getChars c \<noteq> [] then getChars c else '' '')"
    define newKey where "newKey = (map_option (toString lib) fg', map_option (toString lib) bg', attrOpt attrs)"
    define changed where "changed \<longleftrightarrow> newKey \<noteq> currentKey lib v"
    have char: "char \<noteq> []" by (simp add: char_def)
    have changed: "changed \<longleftrightarrow> (map_option (toString lib) fg' \<noteq> map_option (toString lib) (currentFg v)
        \<or> map_option (toString lib) bg' \<noteq> map_option (toString lib) (currentBg v)
        \<or> attrs \<noteq> currentAttrs v)"
      by (auto simp: changed_def newKey_def currentKey_def attrOpt_inj)
    show ?thesis
    proof (cases "changed \<and> currentText v \<noteq> []")
      case True
      let ?c0 = "styledChunk (currentText v) (currentFg v) (currentBg v) (currentAttrs v)"
      have step: "cellStep lib line v x =
          v\<lparr>chunks := chunks v @ [?c0], currentText := char, currentFg := fg', currentBg := bg',
            currentAttrs := attrs\<rparr>"
        using Some False True
        by (simp add: cellStep_def Let_def changed fg'_def bg'_def attrs_def char_def)
      have k0: "chunkKey lib ?c0 = currentKey lib v"
        by (simp add: chunkKey_styledChunk currentKey_def)
      have "successively (keysDiffer lib) (rs @ [?c0])"
        using rs(2,4) by (auto simp: successively_snoc keysDiffer_def k0)
      moreover have "chunkKey lib (last (rs @ [?c0])) \<noteq> newKey"
        using True by (auto simp: k0 changed_def)
      ultimately show ?thesis
        unfolding rowInv_def
        by (intro exI [of _ "rs @ [?c0]"]) (simp add: step rs(1) char currentKey_def newKey_def)
    next
      case nf: False
      have step: "cellStep lib line v x =
          v\<lparr>currentText := currentText v @ char, currentFg := fg', currentBg := bg',
            currentAttrs := attrs\<rparr>"
        using Some False nf
        by (auto simp add: cellStep_def Let_def changed fg'_def bg'_def attrs_def char_def)
      have "rs \<noteq> [] \<longrightarrow> chunkKey lib (last rs) \<noteq> newKey"
        using nf rs(3,4) by (auto simp: changed_def)
      then show ?thesis
        unfolding rowInv_def
        by (intro exI [of _ rs]) (simp add: step rs(1,2) char currentKey_def newKey_def)
    qed
  qed
qed

lemma foldl_cellStep_rowInv:
  "rowInv lib cs v \<Longrightarrow> rowInv lib cs (foldl (cellStep lib line) v xs)"
  by (induction xs arbitrary: v) (simp_all add: cellStep_rowInv)

lemma rowInv_init:
  "rowInv lib cs \<lparr>currentText = [], currentFg = None, currentBg = None, currentAttrs = 0, chunks = cs\<rparr>"
  by (simp add: rowInv_def)

lemma style_eq_key: "style a = style b \<Longrightarrow> chunkKey lib a = chunkKey lib b"
  by (simp add: style_def chunkKey_def)

lemma keysDiffer_styleOrNewline:
  "successively (keysDiffer lib) rs \<Longrightarrow> successively styleOrNewline rs"
  by (erule successively_mono) (auto simp: keysDiffer_def styleOrNewline_def dest: style_eq_key)

text \<open>What one row adds: its runs, pairwise of different style, and the newline.\<close>

lemma rowStep_shape:
  "\<exists>rs. successively (keysDiffer lib) rs \<and>
     (rowStep lib buffer cols rows cs y = cs \<or>
      rowStep lib buffer cols rows cs y = cs @ rs @ (if int y < rows - 1 then [newlineChunk] else []))"
proof (cases "at_index buffer (int y)")
  case None
  then show ?thesis by (auto simp: rowStep_def intro: exI [of _ "[]"])
next
  case (Some line)
  define v where "v = foldl (cellStep lib line)
                   \<lparr>currentText = [], currentFg = None, currentBg = None, currentAttrs = 0,
                    chunks = cs\<rparr> [0..<nat cols]"
  have "rowInv lib cs v"
    unfolding v_def by (intro foldl_cellStep_rowInv rowInv_init)
  then obtain rs where rs: "chunks v = cs @ rs" "successively (keysDiffer lib) rs"
      "currentText v = [] \<longrightarrow> rs = []" "rs \<noteq> [] \<longrightarrow> chunkKey lib (last rs) \<noteq> currentKey lib v"
    by (auto simp: rowInv_def)
  let ?c = "styledChunk (trimEnd (currentText v)) (currentFg v) (currentBg v) (currentAttrs v)"
  define rs' where "rs' = (if currentText v \<noteq> [] then rs @ [?c] else rs)"
  have k: "chunkKey lib ?c = currentKey lib v"
    by (simp add: chunkKey_styledChunk currentKey_def)
  have "successively (keysDiffer lib) rs'"
    using rs(2,4) by (auto simp: rs'_def successively_snoc keysDiffer_def k)
  moreover have "rowStep lib buffer cols rows cs y =
      cs @ rs' @ (if int y < rows - 1 then [newlineChunk] else [])"
    using Some by (simp add: rowStep_def Let_def flip: v_def) (simp add: rs'_def rs(1))
  ultimately show ?thesis by blast
qed

lemma rowStep_rowsInv:
  assumes "rowsInv cs"
  shows "successively styleOrNewline (rowStep lib buffer cols rows cs y)"
    and "int y < rows - 1 \<Longrightarrow> rowsInv (rowStep lib buffer cols rows cs y)"
proof -
  obtain rs where rs: "successively (keysDiffer lib) rs"
    and r: "rowStep lib buffer cols rows cs y = cs \<or>
      rowStep lib buffer cols rows cs y = cs @ rs @ (if int y < rows - 1 then [newlineChunk] else [])"
    using rowStep_shape [of lib buffer cols rows cs y] by blast
  have srs: "successively styleOrNewline rs" using rs by (rule keysDiffer_styleOrNewline)
  have j: "cs = [] \<or> styleOrNewline (last cs) z" for z
    using assms by (auto simp: rowsInv_def styleOrNewline_def)
  have e: "styleOrNewline z newlineChunk" for z
    by (simp add: styleOrNewline_def)
  have a: "successively styleOrNewline (cs @ rs)"
    using assms srs j by (auto simp: successively_append_iff rowsInv_def)
  have b: "successively styleOrNewline (cs @ rs @ [newlineChunk])"
    using a e by (simp add: successively_append_iff flip: append_assoc)
  show "successively styleOrNewline (rowStep lib buffer cols rows cs y)"
    using r a b assms by (auto simp: rowsInv_def)
  show "rowsInv (rowStep lib buffer cols rows cs y)" if "int y < rows - 1"
    using r b assms that by (auto simp: rowsInv_def)
qed

lemma foldl_rowStep_rowsInv:
  assumes "rowsInv cs" "\<forall>y \<in> set ys. int y < rows - 1"
  shows "rowsInv (foldl (rowStep lib buffer cols rows) cs ys)"
  using assms by (induction ys arbitrary: cs) (simp_all add: rowStep_rowsInv)

lemma rows_successively:
  "successively styleOrNewline (foldl (rowStep lib buffer cols rows) [] [0..<nat rows])"
proof (cases "nat rows")
  case 0
  then show ?thesis by simp
next
  case (Suc n)
  have "rowsInv (foldl (rowStep lib buffer cols rows) [] [0..<n])"
    using Suc by (intro foldl_rowStep_rowsInv) (auto simp: rowsInv_def)
  then show ?thesis
    by (simp add: Suc rowStep_rowsInv)
qed

lemma popTrailing_take: "\<exists>n. popTrailing cs = take n cs"
proof (induction cs rule: popTrailing.induct)
  case (1 cs)
  show ?case
  proof (cases "cs \<noteq> [] \<and> (ctext (last cs) = [CHR 0x0A] \<or> trim (ctext (last cs)) = [])")
    case True
    with 1 obtain n where "popTrailing (butlast cs) = take n (butlast cs)" by blast
    then have "popTrailing cs = take (min n (length cs - 1)) cs"
      using True by (subst popTrailing.simps) (simp add: butlast_conv_take min.commute)
    then show ?thesis by blast
  next
    case False
    then have "popTrailing cs = take (length cs) cs"
      by (subst popTrailing.simps) auto
    then show ?thesis by blast
  qed
qed

lemma successively_take: "successively P xs \<Longrightarrow> successively P (take n xs)"
  using successively_append_iff [of P "take n xs" "drop n xs"] by simp

lemma extract_successively:
  "successively styleOrNewline (extractStyledText lib buffer cols rows)"
proof -
  obtain n where "extractStyledText lib buffer cols rows =
      take n (foldl (rowStep lib buffer cols rows) [] [0..<nat rows])"
    unfolding extractStyledText_def using popTrailing_take by blast
  then show ?thesis by (simp add: successively_take rows_successively)
qed


subsection \<open>Claim C4\<close>

text \<open>
  Claim C4, as stated, says that no two adjacent runs of the output share a style and that a
  run is split only where the style changes. The compositor pushes the chunk
  \<^verbatim>\<open>{ text: "\n" }\<close>, which has no colours and no attributes, after every row but the last,
  so a row of default-styled text and the newline run that follows it are adjacent runs of
  one style, and the texts of two rows of the same style are split at the row end. A buffer
  of one column and two rows, \<^verbatim>\<open>a\<close> above \<^verbatim>\<open>b\<close>, both with default colours:
\<close>

theorem extractStyledText_newline_shares_style:
  "extractStyledText exampleLib [[plainCell ''a''], [plainCell ''b'']] 1 2 =
     [plainChunk ''a'', newlineChunk, plainChunk ''b'']
   \<and> style (plainChunk ''a'') = style newlineChunk
   \<and> style newlineChunk = style (plainChunk ''b'')"
proof -
  have "extractStyledText exampleLib [[plainCell ''a''], [plainCell ''b'']] 1 2 =
     [plainChunk ''a'', newlineChunk, plainChunk ''b'']"
    by code_simp
  then show ?thesis
    by (simp add: style_def plainChunk_def newlineChunk_def)
qed

text \<open>
  Claim C4, amended. For every buffer and dimensions, and whatever the library's
  \<^verbatim>\<open>toString\<close> and \<^verbatim>\<open>createTextAttributes\<close> are: whenever two adjacent runs of the
  output have an identical (foreground, background, attributes) triple, one of the two is
  the newline run pushed between rows. So within a row no two adjacent runs share a style
  and a row's text is split only where the style changes; runs are split, besides, at every
  row end, by the unstyled newline run.
\<close>

theorem extractStyledText_adjacent_styles:
  assumes "Suc i < length (extractStyledText lib buffer cols rows)"
    and "style (extractStyledText lib buffer cols rows ! i) =
         style (extractStyledText lib buffer cols rows ! Suc i)"
  shows "extractStyledText lib buffer cols rows ! i = newlineChunk
       \<or> extractStyledText lib buffer cols rows ! Suc i = newlineChunk"
  using successively_nth [OF extract_successively assms(1)] assms(2)
  by (simp add: styleOrNewline_def)

theorem extractStyledText_adjacent_styles_witness:
  "extractStyledText exampleLib
      [[plainCell ''a'', redCell ''b'', redCell ''c''], [plainCell ''d'']] 3 2 =
     [plainChunk ''a'', (plainChunk ''bc'')\<lparr>fg := Some (fromInts 187 0 0)\<rparr>, newlineChunk,
      plainChunk ''d'']
   \<and> Suc 2 < length (extractStyledText exampleLib
      [[plainCell ''a'', redCell ''b'', redCell ''c''], [plainCell ''d'']] 3 2)
   \<and> style (extractStyledText exampleLib
      [[plainCell ''a'', redCell ''b'', redCell ''c''], [plainCell ''d'']] 3 2 ! 2) =
     style (extractStyledText exampleLib
      [[plainCell ''a'', redCell ''b'', redCell ''c''], [plainCell ''d'']] 3 2 ! Suc 2)
   \<and> (extractStyledText exampleLib
      [[plainCell ''a'', redCell ''b'', redCell ''c''], [plainCell ''d'']] 3 2 ! 2 = newlineChunk
      \<or> extractStyledText exampleLib
      [[plainCell ''a'', redCell ''b'', redCell ''c''], [plainCell ''d'']] 3 2 ! Suc 2 = newlineChunk)"
proof -
  let ?out = "extractStyledText exampleLib
      [[plainCell ''a'', redCell ''b'', redCell ''c''], [plainCell ''d'']] 3 2"
  have e: "?out = [plainChunk ''a'', (plainChunk ''bc'')\<lparr>fg := Some (fromInts 187 0 0)\<rparr>,
      newlineChunk, plainChunk ''d'']"
    by code_simp
  have l: "Suc 2 < length ?out" by (simp add: e)
  have s: "style (?out ! 2) = style (?out ! Suc 2)"
    by (simp add: e style_def plainChunk_def newlineChunk_def)
  from extractStyledText_adjacent_styles [OF l s] show ?thesis
    using e l s by simp
qed

section \<open>Properties of the key routing\<close>

text \<open>
  Claim C5. With a live helper process, the component writes for every key event exactly
  the bytes of the table: Ctrl+C gives 0x03, Ctrl+D 0x04, Return CR, Backspace 0x7F, the
  arrows ESC [ A, B, C, D for up, down, right, left, Escape 0x1B; otherwise the raw sequence
  when there is one and neither ctrl nor meta is held; otherwise nothing. When the table
  gives no bytes nothing is written; otherwise there is one write of exactly these bytes.
\<close>

theorem sendKey_table:
  assumes "processRef s = Some p" "stdin p = Some w"
  shows "sendKey key s =
      (if toBytes key = [] then s
       else s\<lparr>processRef := Some (p\<lparr>stdin := Some (w @ [toBytes key])\<rparr>)\<rparr>)
    \<and> stdinBytes (sendKey key s) = stdinBytes s @ toBytes key"
proof -
  have e: "sendKey key s =
      (if toBytes key = [] then s
       else s\<lparr>processRef := Some (p\<lparr>stdin := Some (w @ [toBytes key])\<rparr>)\<rparr>)"
  proof (cases "sequence key")
    case None
    then show ?thesis using assms
      by (simp add: sendKey_def toBytes_def truthy_def truthyString_def Let_def)
  next
    case (Some sq)
    then show ?thesis using assms
      by (simp add: sendKey_def toBytes_def truthy_def truthyString_def Let_def)
  qed
  then show ?thesis using assms by (simp add: stdinBytes_def)
qed

theorem sendKey_table_witness:
  "processRef liveTerminal = Some \<lparr>stdin = Some [''ls'']\<rparr>
   \<and> stdin \<lparr>stdin = Some [''ls'']\<rparr> = Some [''ls'']
   \<and> sendKey \<lparr>name = ''a'', sequence = Some ''a'', ctrl = Some True, meta = None\<rparr> liveTerminal
       = liveTerminal
   \<and> stdinBytes (sendKey \<lparr>name = ''up'', sequence = Some ''x'', ctrl = None, meta = None\<rparr>
       liveTerminal) = ''ls'' @ [CHR 0x1B, CHR ''['', CHR ''A'']
   \<and> stdinBytes (sendKey \<lparr>name = ''c'', sequence = None, ctrl = Some True, meta = None\<rparr>
       liveTerminal) = ''ls'' @ [CHR 0x03]
   \<and> stdinBytes (sendKey \<lparr>name = ''a'', sequence = Some ''a'', ctrl = Some False,
       meta = Some False\<rparr> liveTerminal) = ''ls'' @ ''a''"
proof -
  have a: "processRef liveTerminal = Some \<lparr>stdin = Some [''ls'']\<rparr>"
    by (simp add: liveTerminal_def)
  have b: "stdin \<lparr>stdin = Some [''ls'']\<rparr> = Some [''ls'']" by simp
  show ?thesis
    using sendKey_table [OF a b,
        of "\<lparr>name = ''a'', sequence = Some ''a'', ctrl = Some True, meta = None\<rparr>"]
      sendKey_table [OF a b,
        of "\<lparr>name = ''up'', sequence = Some ''x'', ctrl = None, meta = None\<rparr>"]
      sendKey_table [OF a b,
        of "\<lparr>name = ''c'', sequence = None, ctrl = Some True, meta = None\<rparr>"]
      sendKey_table [OF a b,
        of "\<lparr>name = ''a'', sequence = Some ''a'', ctrl = Some False, meta = Some False\<rparr>"]
      a
    by (simp add: toBytes_def stdinBytes_def)
qed

text \<open>
  Claim C8. After the helper process has exited the handle is cleared, and a key event sent
  then changes nothing: no bytes are written, and the function has no failing branch.
\<close>

theorem sendKey_after_exit:
  "processRef (onProcExit s) = None \<and> sendKey key (onProcExit s) = onProcExit s"
  by (simp add: sendKey_def onProcExit_def)

theorem sendKey_after_exit_witness:
  "processRef (onProcExit liveTerminal) = None
   \<and> sendKey \<lparr>name = ''c'', sequence = None, ctrl = Some True, meta = None\<rparr>
       (onProcExit liveTerminal) = onProcExit liveTerminal
   \<and> stdinBytes (onProcExit liveTerminal) = []"
  using sendKey_after_exit [of liveTerminal
      "\<lparr>name = ''c'', sequence = None, ctrl = Some True, meta = None\<rparr>"]
  by (simp add: stdinBytes_def)

section \<open>Properties of the update scheduler\<close>

lemma scheduleUpdate_onePending:
  assumes "onePending s"
  shows "scheduleUpdate s =
    s\<lparr>timers := [(nextHandle s, clock s + 16)], nextHandle := Suc (nextHandle s),
      pendingUpdate := Some (nextHandle s)\<rparr>"
proof (cases "pendingUpdate s")
  case None
  then have "timers s = []" using assms by (simp add: onePending_def)
  then show ?thesis using None by (simp add: scheduleUpdate_def setTimeout_def)
next
  case (Some h)
  then have "map fst (timers s) = [h]" using assms by (simp add: onePending_def)
  then obtain d where "timers s = [(h, d)]" by (cases "timers s") auto
  then show ?thesis using Some by (simp add: scheduleUpdate_def setTimeout_def clearTimeout_def)
qed

lemma runTimers_idle:
  assumes "nextDue t (timers s) = None"
  shows "runTimers t s = s\<lparr>clock := max (clock s) t\<rparr>"
  using assms by (subst runTimers.simps) simp

lemma runTimers_not_due:
  assumes "timers s = [(h, due)]" "t < due"
  shows "runTimers t s = s\<lparr>clock := max (clock s) t\<rparr>"
  using assms by (intro runTimers_idle) (simp add: nextDue_def)

lemma runTimers_none:
  assumes "timers s = []"
  shows "runTimers t s = s\<lparr>clock := max (clock s) t\<rparr>"
  using assms by (intro runTimers_idle) (simp add: nextDue_def)

lemma runTimers_due:
  assumes "timers s = [(h, due)]" "due \<le> t"
  shows "runTimers t s =
    s\<lparr>clock := max (max (clock s) due) t, timers := [], pendingUpdate := None,
      renders := renders s @ [(max (clock s) due, termState s)]\<rparr>"
proof -
  have "nextDue t (timers s) = Some (h, due)"
    using assms by (simp add: nextDue_def)
  then have "runTimers t s = runTimers t (timerCallback (s\<lparr>clock := max (clock s) due,
                            timers := filter (\<lambda>x. fst x \<noteq> h) (timers s)\<rparr>))"
    by (subst runTimers.simps) simp
  also have "\<dots> = runTimers t (s\<lparr>clock := max (clock s) due, timers := [], pendingUpdate := None,
      renders := renders s @ [(max (clock s) due, termState s)]\<rparr>)"
    using assms by (simp add: timerCallback_def updateDisplay_def)
  also have "\<dots> = s\<lparr>clock := max (max (clock s) due) t, timers := [], pendingUpdate := None,
      renders := renders s @ [(max (clock s) due, termState s)]\<rparr>"
    by (subst runTimers_none) simp_all
  finally show ?thesis .
qed

lemma onePending_cases:
  assumes "onePending s"
  obtains "timers s = []" "pendingUpdate s = None"
  | h due where "timers s = [(h, due)]" "pendingUpdate s = Some h"
proof (cases "pendingUpdate s")
  case None
  then have "timers s = []" using assms by (simp add: onePending_def)
  with None that show ?thesis by blast
next
  case (Some h)
  then have "map fst (timers s) = [h]" using assms by (simp add: onePending_def)
  then obtain d where "timers s = [(h, d)]" by (cases "timers s") auto
  with Some that show ?thesis by blast
qed

lemma runTimers_onePending:
  assumes "onePending s"
  shows "onePending (runTimers t s)"
  using assms
proof (cases rule: onePending_cases)
  case 1
  then show ?thesis by (simp add: runTimers_none onePending_def)
next
  case (2 h due)
  then show ?thesis
    by (cases "due \<le> t") (simp_all add: runTimers_due runTimers_not_due onePending_def)
qed

lemma uiStep_onePending:
  assumes "onePending s"
  shows "onePending (uiStep feed s e)"
proof (cases e)
  case (Stdout d)
  have "onePending (s\<lparr>termState := feed d (termState s)\<rparr>)"
    using assms by (simp add: onePending_def)
  then show ?thesis using Stdout
    by (simp add: onStdoutData_def scheduleUpdate_onePending) (simp add: onePending_def)
next
  case (Elapse d)
  then show ?thesis using assms by (simp add: elapse_def runTimers_onePending)
qed

lemma uiRun_onePending: "onePending s \<Longrightarrow> onePending (uiRun feed evs s)"
  unfolding uiRun_def by (induction evs arbitrary: s) (simp_all add: uiStep_onePending)

lemma onePending_le1: "onePending s \<Longrightarrow> length (timers s) \<le> 1"
  by (erule onePending_cases) simp_all

lemma onStdoutData_armed:
  assumes "onePending s"
  shows "armed (onStdoutData feed d s)" "renders (onStdoutData feed d s) = renders s"
    "clock (onStdoutData feed d s) = clock s"
    "termState (onStdoutData feed d s) = feed d (termState s)"
proof -
  have "onePending (s\<lparr>termState := feed d (termState s)\<rparr>)"
    using assms by (simp add: onePending_def)
  then have e: "onStdoutData feed d s = s\<lparr>termState := feed d (termState s),
      timers := [(nextHandle s, clock s + 16)], nextHandle := Suc (nextHandle s),
      pendingUpdate := Some (nextHandle s)\<rparr>"
    by (simp add: onStdoutData_def scheduleUpdate_onePending)
  show "armed (onStdoutData feed d s)" "renders (onStdoutData feed d s) = renders s"
    "clock (onStdoutData feed d s) = clock s"
    "termState (onStdoutData feed d s) = feed d (termState s)"
    by (simp_all add: e armed_def)
qed

lemma elapse_armed_short:
  assumes "armed s" "g < 16"
  shows "onePending (elapse g s)" "renders (elapse g s) = renders s"
    "clock (elapse g s) = clock s + g" "termState (elapse g s) = termState s"
proof -
  from assms obtain h where t: "timers s = [(h, clock s + 16)]" and p: "pendingUpdate s = Some h"
    by (auto simp: armed_def)
  have e: "elapse g s = s\<lparr>clock := clock s + g\<rparr>"
    using assms(2) by (simp add: elapse_def runTimers_not_due [OF t])
  show "onePending (elapse g s)" "renders (elapse g s) = renders s"
    "clock (elapse g s) = clock s + g" "termState (elapse g s) = termState s"
    using t p by (simp_all add: e onePending_def)
qed

lemma elapse_armed_long:
  assumes "armed s" "16 \<le> T"
  shows "renders (elapse T s) = renders s @ [(clock s + 16, termState s)]"
    "timers (elapse T s) = []" "pendingUpdate (elapse T s) = None"
proof -
  from assms obtain h where t: "timers s = [(h, clock s + 16)]" and p: "pendingUpdate s = Some h"
    by (auto simp: armed_def)
  show "renders (elapse T s) = renders s @ [(clock s + 16, termState s)]"
    "timers (elapse T s) = []" "pendingUpdate (elapse T s) = None"
    using assms(2) by (simp_all add: elapse_def runTimers_due [OF t])
qed

lemma burst_armed:
  assumes "onePending s" "\<forall>x \<in> set rest. fst x < 16"
  shows "armed (uiRun feed (burst d0 rest) s)
    \<and> renders (uiRun feed (burst d0 rest) s) = renders s
    \<and> clock (uiRun feed (burst d0 rest) s) = clock s + sum_list (map fst rest)
    \<and> termState (uiRun feed (burst d0 rest) s) =
        foldl (\<lambda>b d. feed d b) (termState s) (d0 # map snd rest)"
  using assms
proof (induction rest arbitrary: d0 s)
  case Nil
  then show ?case by (simp add: uiRun_def onStdoutData_armed)
next
  case (Cons x rest)
  obtain g d where x: "x = (g, d)" by (cases x)
  let ?s1 = "onStdoutData feed d0 s"
  let ?s2 = "elapse g ?s1"
  have g: "g < 16" using Cons.prems x by simp
  note a = onStdoutData_armed [OF Cons.prems(1), of feed d0]
  note b = elapse_armed_short [OF a(1) g]
  have r: "uiRun feed (burst d0 (x # rest)) s = uiRun feed (burst d rest) ?s2"
    by (simp add: x uiRun_def)
  have "\<forall>x \<in> set rest. fst x < 16" using Cons.prems by simp
  from Cons.IH [OF b(1) this, of d] show ?case
    unfolding r by (simp add: a b x)
qed

lemma gaps_small: "sum_list (map fst rest) < (16::nat) \<Longrightarrow> \<forall>x \<in> set rest. fst x < 16"
  by (induction rest) auto


text \<open>
  Claim C7. From any state in which the timer table holds exactly the pending handle, for a
  burst of calls of the scheduler that falls within one 16 ms window: each call replaces
  the pending timer by one due 16 ms later, the table never holds more than one timer
  (after any sequence of events), and once 16 ms have passed after the last call the render
  function has run exactly once more, 16 ms after the last call, on the buffer state of that
  moment.
\<close>

theorem scheduleUpdate_coalesces:
  assumes "onePending s" "sum_list (map fst rest) < 16" "16 \<le> T"
  shows "renders (uiRun feed (burst d0 rest @ [Elapse T]) s) =
      renders s @ [(clock s + sum_list (map fst rest) + 16,
                    foldl (\<lambda>b d. feed d b) (termState s) (d0 # map snd rest))]
    \<and> length (timers (uiRun feed evs s)) \<le> 1
    \<and> timers (scheduleUpdate s) = [(nextHandle s, clock s + 16)]"
proof -
  note b = burst_armed [OF assms(1) gaps_small [OF assms(2)], of feed d0]
  have "uiRun feed (burst d0 rest @ [Elapse T]) s = elapse T (uiRun feed (burst d0 rest) s)"
    by (simp add: uiRun_def)
  then have "renders (uiRun feed (burst d0 rest @ [Elapse T]) s) =
      renders s @ [(clock s + sum_list (map fst rest) + 16,
                    foldl (\<lambda>b d. feed d b) (termState s) (d0 # map snd rest))]"
    using b elapse_armed_long(1) [of "uiRun feed (burst d0 rest) s" T] assms(3) by simp
  moreover have "length (timers (uiRun feed evs s)) \<le> 1"
    by (intro onePending_le1 uiRun_onePending assms(1))
  moreover have "timers (scheduleUpdate s) = [(nextHandle s, clock s + 16)]"
    by (simp add: scheduleUpdate_onePending [OF assms(1)])
  ultimately show ?thesis by simp
qed

theorem scheduleUpdate_coalesces_witness:
  "onePending mounted \<and> sum_list (map fst nineMore) < 16 \<and> (16::nat) \<le> 20
   \<and> renders (uiRun appendChunk (burst ''c0'' nineMore @ [Elapse 20]) mounted) =
       [(21, [''c0'', ''c1'', ''c2'', ''c3'', ''c4'', ''c5'', ''c6'', ''c7'', ''c8'', ''c9''])]
   \<and> length (timers (uiRun appendChunk (burst ''c0'' nineMore) mounted)) \<le> 1"
  using scheduleUpdate_coalesces [of mounted nineMore 20 appendChunk "''c0''"
      "burst ''c0'' nineMore"]
  by (simp add: mounted_def nineMore_def onePending_def appendChunk_def)

end
